theory Spec2Isabelle
  imports Main "HOL-Library.Sublist"
begin

section \<open>Express cache tutorial: cached pass-through for the ticker endpoint\<close>

text \<open>
  The repository consists of \<^verbatim>\<open>services/crypto.services.js\<close> and of the modules listed in
  \<^verbatim>\<open>README.md\<close> (\<^verbatim>\<open>middleware/crypto.cache.js\<close>, \<^verbatim>\<open>services/fetch.js\<close>,
  \<^verbatim>\<open>controllers/crypto.controllers.js\<close>, \<^verbatim>\<open>router.js\<close>). \<open>FetchApi\<close>, \<open>cryptoApi\<close>,
  \<open>cryptoCacheMiddleware\<close> and \<open>cryptoController\<close> embed the functions of these names;
  the cache they share is an object of the package \<^verbatim>\<open>node-cache\<close>. Ticker records are
  opaque (type \<open>'a\<close>), and the upstream's decoded body is a list of them.

  Time is the millisecond clock of \<^verbatim>\<open>Date.now()\<close>, a natural number. Every call of a
  cache method reads the clock for itself, so each call is given its own reading.
  Requests are served one after the other.
\<close>

subsection \<open>Values, errors, effects\<close>

text \<open>What \<^verbatim>\<open>axios.get\<close> rejects with: a network failure or a response outside 2xx.\<close>

datatype error = NetworkError | StatusError nat

text \<open>
  The effects the program has on the outside world, newest first: calls of the cache's
  methods with what they returned (\<open>None\<close> is JavaScript's \<^verbatim>\<open>undefined\<close>), calls of
  Express's \<^verbatim>\<open>next()\<close>, HTTP requests issued by \<^verbatim>\<open>axios.get\<close>, and lines written by
  \<^verbatim>\<open>console.log\<close>.
\<close>

datatype 'a event =
    Has string bool
  | Get string "'a list option"
  | Set string "'a list"
  | Next
  | AxiosGet string
  | Log error

text \<open>A cache entry as the cache wraps it: the value and the instant it expires at.\<close>

record 'a entry =
  entry_v :: "'a list"
  entry_t :: nat

type_synonym 'a cache = "string \<rightharpoonup> 'a entry"

text \<open>The process state: the module-level \<^verbatim>\<open>cryptoCache\<close> and the effects so far.\<close>

record 'a world =
  cryptoCache :: "'a cache"
  trace :: "'a event list"

text \<open>
  Express's response object, as far as the handlers use it: \<^verbatim>\<open>res.statusCode\<close> (200 on a
  fresh response) and what \<^verbatim>\<open>res.send\<close> has written, with the status it went out under.
\<close>

record 'a res =
  statusCode :: nat
  sent :: "(nat \<times> 'a list option) option"

definition fresh_res :: "'a res" where
  "fresh_res = \<lparr>statusCode = 200, sent = None\<rparr>"

definition send :: "'a list option \<Rightarrow> 'a res \<Rightarrow> 'a res" where
  "send body r = r\<lparr>sent := Some (statusCode r, body)\<rparr>"

definition status :: "nat \<Rightarrow> 'a res \<Rightarrow> 'a res" where
  "status code r = r\<lparr>statusCode := code\<rparr>"

definition emit :: "'a event \<Rightarrow> 'a world \<Rightarrow> 'a world" where
  "emit e w = w\<lparr>trace := e # trace w\<rparr>"

definition upstream_fetches :: "'a world \<Rightarrow> nat" where
  "upstream_fetches w = length (filter (\<lambda>e. case e of AxiosGet _ \<Rightarrow> True | _ \<Rightarrow> False) (trace w))"

definition next_calls :: "'a world \<Rightarrow> nat" where
  "next_calls w = length (filter (\<lambda>e. case e of Next \<Rightarrow> True | _ \<Rightarrow> False) (trace w))"

subsection \<open>\<^verbatim>\<open>Array.prototype.slice\<close>\<close>

text \<open>
  \<^verbatim>\<open>xs.slice(start, end)\<close> on integer bounds; \<open>None\<close> as \<open>end\<close> is \<^verbatim>\<open>undefined\<close>,
  which stands for the length. A negative bound counts from the end, and both bounds are
  clamped to the array.
\<close>

definition slice :: "'a list \<Rightarrow> int \<Rightarrow> int option \<Rightarrow> 'a list" where
  "slice xs start end =
     (let len = int (length xs);
          k = (if start < 0 then max (len + start) 0 else min start len);
          relativeEnd = (case end of None \<Rightarrow> len | Some e \<Rightarrow> e);
          final = (if relativeEnd < 0 then max (len + relativeEnd) 0 else min relativeEnd len)
      in take (nat (final - k)) (drop (nat k) xs))"

subsection \<open>\<^verbatim>\<open>services/fetch.js\<close> and \<^verbatim>\<open>services/crypto.services.js\<close>\<close>

text \<open>
  \<open>FetchApi\<close>: one \<^verbatim>\<open>axios.get(url)\<close>, whose outcome \<open>resp\<close> is the upstream's answer
  (its decoded body, or the error it rejects with). The \<^verbatim>\<open>catch\<close> block logs the error
  and throws it again.
\<close>

definition FetchApi :: "error + 'a list \<Rightarrow> string \<Rightarrow> 'a world \<Rightarrow> (error + 'a list) \<times> 'a world" where
  "FetchApi resp url w =
     (let w1 = emit (AxiosGet url) w
      in case resp of
           Inr data \<Rightarrow> (Inr data, w1)
         | Inl err \<Rightarrow> (Inl err, emit (Log err) w1))"

definition ticker_url :: string where
  "ticker_url = ''https://api2.binance.com/api/v3/ticker/24hr''"

definition cryptoApi :: "error + 'a list \<Rightarrow> int option \<Rightarrow> 'a world \<Rightarrow> (error + 'a list) \<times> 'a world" where
  "cryptoApi resp amount w =
     (case FetchApi resp ticker_url w of
        (Inr result, w1) \<Rightarrow> (Inr (slice result 0 amount), w1)
      | (Inl err, w1) \<Rightarrow> (Inl err, emit (Log err) w1))"

subsection \<open>The cache: package \<^verbatim>\<open>node-cache\<close>\<close>

text \<open>
  \<^verbatim>\<open>middleware/crypto.cache.js\<close> creates the cache with
  \<^verbatim>\<open>new Cache({ stdTTL: 60 * 5 })\<close>: the time to live, in seconds.
\<close>

definition stdTTL :: nat where
  "stdTTL = 60 * 5"

text \<open>
  Modelled from the spec: the method \<^verbatim>\<open>has\<close> of the class \<^verbatim>\<open>Cache\<close>, which belongs to
  the package \<^verbatim>\<open>node-cache\<close> and is not among the repository's files. The spec: true
  iff an entry exists for the key and has not exceeded its TTL; expiry is checked lazily
  at read time.
\<close>

definition has :: "'a cache \<Rightarrow> nat \<Rightarrow> string \<Rightarrow> bool" where
  "has c now key = (case c key of None \<Rightarrow> False | Some e \<Rightarrow> now \<le> entry_t e)"

text \<open>
  Modelled from the spec: the method \<^verbatim>\<open>get\<close> of the same class. The spec: returns the
  cached sequence if present and unexpired, \<^verbatim>\<open>undefined\<close> when \<^verbatim>\<open>has\<close> is false.
\<close>

definition get :: "'a cache \<Rightarrow> nat \<Rightarrow> string \<Rightarrow> 'a list option" where
  "get c now key = (if has c now key then map_option entry_v (c key) else None)"

text \<open>
  Modelled from the spec: the method \<^verbatim>\<open>set\<close> of the same class. The spec: stores the
  value under the key with a freshly stamped expiry, now + TTL, overwriting any prior
  entry. The clock counts milliseconds and the TTL seconds.
\<close>

definition set_cache :: "'a cache \<Rightarrow> nat \<Rightarrow> string \<Rightarrow> 'a list \<Rightarrow> 'a cache" where
  "set_cache c now key val = c(key \<mapsto> \<lparr>entry_v = val, entry_t = now + stdTTL * 1000\<rparr>)"

text \<open>
  A history of \<^verbatim>\<open>set\<close> calls, oldest first, each with the clock reading it ran at; the
  cache it leaves; and the reading at which a key was stored last.
\<close>

fun stores :: "(nat \<times> string \<times> 'a list) list \<Rightarrow> 'a cache \<Rightarrow> 'a cache" where
  "stores [] c = c"
| "stores ((now, key, val) # later) c = stores later (set_cache c now key val)"

fun last_stored :: "(nat \<times> string \<times> 'a list) list \<Rightarrow> string \<Rightarrow> nat option" where
  "last_stored [] key = None"
| "last_stored ((now, k, val) # later) key =
     (case last_stored later key of
        Some t \<Rightarrow> Some t
      | None \<Rightarrow> if k = key then Some now else None)"

subsection \<open>\<^verbatim>\<open>middleware/crypto.cache.js\<close>\<close>

text \<open>
  \<open>cryptoCacheMiddleware\<close> takes Express's \<^verbatim>\<open>next\<close> as the continuation it is. It
  calls \<^verbatim>\<open>has\<close> and then, on a hit, \<^verbatim>\<open>get\<close>: two calls of the cache, which read the
  clock at \<open>t_has\<close> and at \<open>t_get\<close>. \<^verbatim>\<open>res.send(...)\<close> returns the response, on which
  \<^verbatim>\<open>status(200)\<close> is then called. No call in the \<^verbatim>\<open>try\<close> block throws, and a
  rejection of the asynchronous controller does not pass through \<^verbatim>\<open>next()\<close>, so the
  \<^verbatim>\<open>catch\<close> block has no branch here.
\<close>

type_synonym 'a outcome = "(error + unit) \<times> 'a res \<times> 'a world"

definition cryptoCacheMiddleware ::
  "nat \<Rightarrow> nat \<Rightarrow> 'a res \<Rightarrow> ('a res \<Rightarrow> 'a world \<Rightarrow> 'a outcome) \<Rightarrow> 'a world \<Rightarrow> 'a outcome" where
  "cryptoCacheMiddleware t_has t_get res next w =
     (let hit = has (cryptoCache w) t_has ''crypto-list'';
          w1 = emit (Has ''crypto-list'' hit) w
      in if hit
         then (let cached = get (cryptoCache w1) t_get ''crypto-list'';
                   w2 = emit (Get ''crypto-list'' cached) w1
               in (Inr (), status 200 (send cached res), w2))
         else next res (emit Next w1))"

subsection \<open>\<^verbatim>\<open>controllers/crypto.controllers.js\<close>\<close>

text \<open>
  \<open>cryptoController\<close> awaits \<open>cryptoApi(25)\<close>; what follows the \<^verbatim>\<open>await\<close> runs at the
  clock reading \<open>resumed\<close>. On success it stores the data, sends it, then sets the status.
  The \<^verbatim>\<open>catch\<close> block sets the status to 500, logs the error and throws it again (the
  \<open>Inl\<close> outcome); it does not call \<^verbatim>\<open>res.send\<close>.
\<close>

definition cryptoController :: "error + 'a list \<Rightarrow> nat \<Rightarrow> 'a res \<Rightarrow> 'a world \<Rightarrow> 'a outcome" where
  "cryptoController resp resumed res w =
     (case cryptoApi resp (Some 25) w of
        (Inr data, w1) \<Rightarrow>
          (let w2 = emit (Set ''crypto-list'' data)
                      (w1\<lparr>cryptoCache := set_cache (cryptoCache w1) resumed ''crypto-list'' data\<rparr>)
           in (Inr (), status 200 (send (Some data) res), w2))
      | (Inl err, w1) \<Rightarrow> (Inl err, status 500 res, emit (Log err) w1))"

subsection \<open>\<^verbatim>\<open>router.js\<close>\<close>

text \<open>
  What the environment decides for one \<^verbatim>\<open>GET /crypto\<close>: the clock reading when the
  request arrives and the middleware calls \<^verbatim>\<open>has\<close>, the reading of the \<^verbatim>\<open>get\<close> call
  that follows a hit, what the upstream would answer if asked, and the reading at which
  the controller resumes after its \<^verbatim>\<open>await\<close> and calls \<^verbatim>\<open>set\<close>.
\<close>

record 'a request =
  arrival :: nat
  get_at :: nat
  upstream :: "error + 'a list"
  resumed :: nat

text \<open>
  \<^verbatim>\<open>router.get("/crypto", cryptoCacheMiddleware, cryptoController)\<close>: Express calls the
  middleware on a fresh response, with the controller as \<^verbatim>\<open>next\<close>.
\<close>

definition get_crypto :: "'a request \<Rightarrow> 'a world \<Rightarrow> 'a outcome" where
  "get_crypto rq w =
     cryptoCacheMiddleware (arrival rq) (get_at rq) fresh_res
       (cryptoController (upstream rq) (resumed rq)) w"

text \<open>The process starts with an empty cache; it serves a sequence of requests.\<close>

definition boot :: "'a world" where
  "boot = \<lparr>cryptoCache = Map.empty, trace = []\<rparr>"

fun serve :: "'a request list \<Rightarrow> 'a world \<Rightarrow> 'a world" where
  "serve [] w = w"
| "serve (rq # rqs) w = serve rqs (snd (snd (get_crypto rq w)))"

text \<open>
  A trace (newest first) in which every \<^verbatim>\<open>get\<close> comes directly after a \<^verbatim>\<open>has\<close> of the
  same key that returned true.
\<close>

fun gets_after_has :: "'a event list \<Rightarrow> bool" where
  "gets_after_has [] = True"
| "gets_after_has (Get k r # Has k' True # es) = (k = k' \<and> gets_after_has es)"
| "gets_after_has (Get k r # es) = False"
| "gets_after_has (e # es) = gets_after_has es"

text \<open>A trace in which, moreover, every such \<^verbatim>\<open>get\<close> returned a value.\<close>

fun guarded_gets :: "'a event list \<Rightarrow> bool" where
  "guarded_gets [] = True"
| "guarded_gets (Get k (Some val) # Has k' True # es) = (k = k' \<and> guarded_gets es)"
| "guarded_gets (Get k r # es) = False"
| "guarded_gets (e # es) = guarded_gets es"

text \<open>
  A run in which no entry expires between a \<^verbatim>\<open>has\<close> that found it and the \<^verbatim>\<open>get\<close>
  that follows: whenever a request hits, the entry is still unexpired at its \<open>get_at\<close>.
\<close>

fun unexpired_at_get :: "'a request list \<Rightarrow> 'a world \<Rightarrow> bool" where
  "unexpired_at_get [] w = True"
| "unexpired_at_get (rq # rqs) w =
     ((if has (cryptoCache w) (arrival rq) ''crypto-list''
       then has (cryptoCache w) (get_at rq) ''crypto-list'' else True)
      \<and> unexpired_at_get rqs (snd (snd (get_crypto rq w))))"

section \<open>Properties\<close>

lemmas handler_defs = get_crypto_def cryptoCacheMiddleware_def cryptoController_def
  cryptoApi_def FetchApi_def emit_def send_def status_def fresh_res_def

subsection \<open>Truncation\<close>

lemma slice_from_0: "0 \<le> n \<Longrightarrow> slice xs 0 (Some n) = take (nat n) xs"
  by (simp add: slice_def Let_def min_def)

lemma slice_undefined_end: "slice xs 0 None = xs"
  by (simp add: slice_def)

text \<open>
  Claim C1. For an upstream list \<open>xs\<close> and a count \<open>n \<ge> 0\<close>, \<open>cryptoApi\<close> returns the
  first \<open>n\<close> records of \<open>xs\<close> in their order: a prefix of \<open>xs\<close> of at most \<open>n\<close> records,
  and of exactly \<open>n\<close> when \<open>xs\<close> has at least \<open>n\<close>.
\<close>

theorem cryptoApi_prefix:
  assumes "0 \<le> n"
  shows "fst (cryptoApi (Inr xs) (Some n) w) = Inr (take (nat n) xs)
       \<and> prefix (take (nat n) xs) xs
       \<and> int (length (take (nat n) xs)) \<le> n
       \<and> (n \<le> int (length xs) \<longrightarrow> int (length (take (nat n) xs)) = n)"
  using assms
  by (auto simp: cryptoApi_def FetchApi_def slice_from_0 take_is_prefix)

theorem cryptoApi_prefix_witness:
  "fst (cryptoApi (Inr [10, 20, 30 :: nat]) (Some 2) boot) = Inr [10, 20]
   \<and> prefix [10, 20] [10, 20, 30 :: nat]"
proof -
  have "(0::int) \<le> 2" by simp
  from cryptoApi_prefix [OF this, of "[10, 20, 30 :: nat]" boot] show ?thesis
    by (simp add: numeral_2_eq_2)
qed

text \<open>
  Claim C10. With \<^verbatim>\<open>undefined\<close> as the amount, \<open>cryptoApi\<close> returns the whole upstream
  list: it neither fails nor returns an empty list for a non-empty one.
\<close>

theorem cryptoApi_undefined_amount:
  "fst (cryptoApi (Inr xs) None w) = Inr xs"
  by (simp add: cryptoApi_def FetchApi_def slice_undefined_end)

subsection \<open>The cache\<close>

lemma has_empty: "\<not> has Map.empty now key"
  by (simp add: has_def)

lemma has_set_cache:
  "has (set_cache c t k v) now key = (if k = key then now \<le> t + stdTTL * 1000 else has c now key)"
  by (simp add: has_def set_cache_def)

lemma has_stores:
  "has (stores h c) now key =
     (case last_stored h key of Some t0 \<Rightarrow> now \<le> t0 + stdTTL * 1000 | None \<Rightarrow> has c now key)"
proof (induction h arbitrary: c)
  case Nil
  then show ?case by simp
next
  case (Cons a h)
  obtain t k v where a: "a = (t, k, v)" by (cases a)
  show ?case
    by (simp add: a Cons.IH has_set_cache split: option.splits)
qed

lemma elapsed_le: "(int now - int t0 \<le> int ttl) = (now \<le> t0 + ttl)"
  by linarith

lemma has_expired_later: "\<not> has c t key \<Longrightarrow> t \<le> t' \<Longrightarrow> \<not> has c t' key"
  by (auto simp: has_def split: option.splits)

lemma has_get: "has c now key \<Longrightarrow> \<exists>e. c key = Some e \<and> get c now key = Some (entry_v e)"
  by (auto simp: has_def get_def split: option.splits)

text \<open>
  Claim C4. \<open>has\<close> is true for a key at a clock reading iff an entry exists for the key
  and the time elapsed since it was stored does not exceed the TTL. In a cache filled by
  any history of \<open>set\<close> calls, that is: the key was stored, and the reading is at most
  the TTL after it was stored last. In any cache, it is: the key has an entry whose
  expiry has not passed.
\<close>

theorem has_iff_stored_within_ttl:
  "(has (stores h Map.empty) now key
     \<longleftrightarrow> (\<exists>t0. last_stored h key = Some t0 \<and> int now - int t0 \<le> int (stdTTL * 1000)))
   \<and> (has c now key \<longleftrightarrow> (\<exists>e. c key = Some e \<and> now \<le> entry_t e))"
proof
  show "has (stores h Map.empty) now key
     \<longleftrightarrow> (\<exists>t0. last_stored h key = Some t0 \<and> int now - int t0 \<le> int (stdTTL * 1000))"
    unfolding elapsed_le has_stores by (simp add: has_empty split: option.splits)
  show "has c now key \<longleftrightarrow> (\<exists>e. c key = Some e \<and> now \<le> entry_t e)"
    by (simp add: has_def split: option.splits)
qed

theorem has_iff_stored_within_ttl_witness:
  "has (stores [(0, ''crypto-list'', [1::nat]), (2000, ''crypto-list'', [2])] Map.empty)
       302000 ''crypto-list''
   \<and> \<not> has (stores [(0, ''crypto-list'', [1::nat]), (2000, ''crypto-list'', [2])] Map.empty)
         302001 ''crypto-list''"
proof -
  let ?h = "[(0, ''crypto-list'', [1::nat]), (2000, ''crypto-list'', [2])]"
  have stored: "last_stored ?h ''crypto-list'' = Some 2000"
    by simp
  from has_iff_stored_within_ttl [of ?h 302000 "''crypto-list''" "Map.empty :: nat cache"] stored
  have fresh: "has (stores ?h Map.empty) 302000 ''crypto-list''"
    by (simp add: stdTTL_def)
  from has_iff_stored_within_ttl [of ?h 302001 "''crypto-list''" "Map.empty :: nat cache"] stored
  have "\<not> has (stores ?h Map.empty) 302001 ''crypto-list''"
    by (simp add: stdTTL_def)
  with fresh show ?thesis by (rule conjI)
qed

text \<open>
  Claim C5. Whatever the cache held before, \<open>set\<close> leaves under the key the new value
  with the expiry now + TTL, the TTL being 300 seconds (300 * 1000 on the millisecond
  clock); the entries of the other keys are untouched, the key is the only one that may
  be new, and no key has more than one entry.
\<close>

theorem set_cache_overwrites:
  "set_cache c now key val key = Some \<lparr>entry_v = val, entry_t = now + 300 * 1000\<rparr>
   \<and> (\<forall>k. k \<noteq> key \<longrightarrow> set_cache c now key val k = c k)
   \<and> dom (set_cache c now key val) = insert key (dom c)
   \<and> (\<forall>k. \<exists>\<^sub>\<le>\<^sub>1 e. set_cache c now key val k = Some e)"
  by (auto simp: set_cache_def stdTTL_def Uniq_def)

theorem set_cache_overwrites_witness:
  "set_cache [''crypto-list'' \<mapsto> \<lparr>entry_v = [7::nat, 8], entry_t = 5000\<rparr>]
       1000 ''crypto-list'' [1, 2] ''crypto-list''
     = Some \<lparr>entry_v = [1, 2], entry_t = 301000\<rparr>
   \<and> set_cache [''crypto-list'' \<mapsto> \<lparr>entry_v = [7::nat, 8], entry_t = 5000\<rparr>]
       1000 ''crypto-list'' [1, 2] ''home'' = None"
  using set_cache_overwrites
    [of "[''crypto-list'' \<mapsto> \<lparr>entry_v = [7::nat, 8], entry_t = 5000\<rparr>]" 1000
        "''crypto-list''" "[1, 2]"]
  by simp

subsection \<open>One request\<close>

lemma get_crypto_hit:
  assumes "has (cryptoCache w) (arrival rq) ''crypto-list''"
  shows "get_crypto rq w =
           (Inr (),
            \<lparr>statusCode = 200, sent = Some (200, get (cryptoCache w) (get_at rq) ''crypto-list'')\<rparr>,
            w\<lparr>trace := Get ''crypto-list'' (get (cryptoCache w) (get_at rq) ''crypto-list'')
                         # Has ''crypto-list'' True # trace w\<rparr>)"
  using assms by (simp add: handler_defs Let_def)

lemma get_crypto_miss:
  assumes "\<not> has (cryptoCache w) (arrival rq) ''crypto-list''"
  shows "get_crypto rq w =
           cryptoController (upstream rq) (resumed rq) fresh_res
             (w\<lparr>trace := Next # Has ''crypto-list'' False # trace w\<rparr>)"
  using assms by (simp add: get_crypto_def cryptoCacheMiddleware_def emit_def)

lemma cryptoController_success:
  "cryptoController (Inr xs) t res w =
     (Inr (), \<lparr>statusCode = 200, sent = Some (statusCode res, Some (take 25 xs))\<rparr>,
      \<lparr>cryptoCache = set_cache (cryptoCache w) t ''crypto-list'' (take 25 xs),
       trace = Set ''crypto-list'' (take 25 xs) # AxiosGet ticker_url # trace w\<rparr>)"
  by (simp add: cryptoController_def cryptoApi_def FetchApi_def emit_def send_def status_def
      slice_from_0)

lemma cryptoController_failure:
  "cryptoController (Inl err) t res w =
     (Inl err, res\<lparr>statusCode := 500\<rparr>,
      w\<lparr>trace := Log err # Log err # Log err # AxiosGet ticker_url # trace w\<rparr>)"
  by (simp add: cryptoController_def cryptoApi_def FetchApi_def emit_def status_def)

text \<open>
  Claim C7. A request that misses the cache and whose upstream fetch succeeds is answered
  with the first 25 records of the upstream list under status 200, and leaves exactly
  that list in the cache under \<^verbatim>\<open>"crypto-list"\<close>, stamped at the instant the controller
  resumed.
\<close>

theorem miss_then_success:
  assumes "\<not> has (cryptoCache w) (arrival rq) ''crypto-list''"
      and "upstream rq = Inr xs"
      and "get_crypto rq w = (out, res', w')"
  shows "out = Inr ()
       \<and> res' = \<lparr>statusCode = 200, sent = Some (200, Some (take 25 xs))\<rparr>
       \<and> cryptoCache w' ''crypto-list''
           = Some \<lparr>entry_v = take 25 xs, entry_t = resumed rq + stdTTL * 1000\<rparr>
       \<and> get (cryptoCache w') (resumed rq) ''crypto-list'' = Some (take 25 xs)
       \<and> length (take 25 xs) \<le> 25"
  using assms
  by (auto simp: get_crypto_miss cryptoController_success fresh_res_def set_cache_def
      get_def has_def)

theorem miss_then_success_witness:
  "\<not> has (cryptoCache boot) 1000 ''crypto-list''
   \<and> fst (get_crypto \<lparr>arrival = 1000, get_at = 1000, upstream = Inr [0..<30], resumed = 1500\<rparr> boot)
       = Inr ()
   \<and> fst (snd (get_crypto
         \<lparr>arrival = 1000, get_at = 1000, upstream = Inr [0..<30], resumed = 1500\<rparr> boot))
       = \<lparr>statusCode = 200, sent = Some (200, Some [0..<25])\<rparr>
   \<and> cryptoCache (snd (snd (get_crypto
         \<lparr>arrival = 1000, get_at = 1000, upstream = Inr [0..<30], resumed = 1500\<rparr> boot)))
        ''crypto-list''
       = Some \<lparr>entry_v = [0..<25], entry_t = 301500\<rparr>"
proof -
  let ?rq = "\<lparr>arrival = 1000, get_at = 1000, upstream = Inr [0..<30], resumed = 1500\<rparr> :: nat request"
  have miss: "\<not> has (cryptoCache boot) (arrival ?rq) ''crypto-list''"
    by (simp add: boot_def has_def)
  have ok: "upstream ?rq = Inr [0..<30]"
    by simp
  have run: "get_crypto ?rq boot
      = (fst (get_crypto ?rq boot), fst (snd (get_crypto ?rq boot)), snd (snd (get_crypto ?rq boot)))"
    by simp
  from miss_then_success [OF miss ok run] miss show ?thesis
    by (simp add: stdTTL_def)
qed

text \<open>
  A request that misses the cache and whose upstream fetch fails: the controller sets the
  status code to 500, logs the error and throws it on; the cache is as it was, so \<open>has\<close>
  stays false at every later instant. Nothing is sent.
\<close>

lemma miss_then_failure:
  assumes "\<not> has (cryptoCache w) (arrival rq) ''crypto-list''"
      and "upstream rq = Inl err"
      and "get_crypto rq w = (out, res', w')"
  shows "statusCode res' = 500
       \<and> sent res' = None
       \<and> cryptoCache w' = cryptoCache w
       \<and> (\<forall>t. arrival rq \<le> t \<longrightarrow> \<not> has (cryptoCache w') t ''crypto-list'')
       \<and> out = Inl err
       \<and> Log err \<in> set (trace w')"
  using assms has_expired_later [of "cryptoCache w" "arrival rq" "''crypto-list''"]
  by (auto simp: get_crypto_miss cryptoController_failure fresh_res_def)

text \<open>
  Claim C3. The claim is that a miss followed by a failed fetch gives a response of status
  500. Served on an empty cache while the upstream is down, \<^verbatim>\<open>GET /crypto\<close> ends with
  the status code 500 set on the response and the error thrown on, but with nothing
  sent: the \<^verbatim>\<open>catch\<close> block of the controller does not call \<^verbatim>\<open>res.send\<close>, as the
  \<^verbatim>\<open>try\<close> block does. The cache is left empty.
\<close>

theorem failed_fetch_sends_no_response:
  "statusCode (fst (snd (get_crypto
       \<lparr>arrival = 1000, get_at = 1000, upstream = Inl NetworkError, resumed = 1200\<rparr>
       (boot :: nat world)))) = 500
   \<and> sent (fst (snd (get_crypto
       \<lparr>arrival = 1000, get_at = 1000, upstream = Inl NetworkError, resumed = 1200\<rparr>
       (boot :: nat world)))) = None
   \<and> fst (get_crypto
       \<lparr>arrival = 1000, get_at = 1000, upstream = Inl NetworkError, resumed = 1200\<rparr>
       (boot :: nat world)) = Inl NetworkError
   \<and> cryptoCache (snd (snd (get_crypto
       \<lparr>arrival = 1000, get_at = 1000, upstream = Inl NetworkError, resumed = 1200\<rparr>
       (boot :: nat world)))) ''crypto-list'' = None"
  by (simp add: handler_defs boot_def has_def)

text \<open>
  Claim C2, as stated: when a request missed the cache and fetched successfully, a next
  request that arrives within the TTL of that fetch is sent the same body. It fails when
  the entry expires between the second request's \<open>has\<close> and its \<open>get\<close>: stored at 1500,
  the entry expires at 301500; a request whose \<open>has\<close> reads 301500 hits, its \<open>get\<close> at
  301501 returns \<^verbatim>\<open>undefined\<close>, and that is what is sent.
\<close>

theorem second_within_ttl_counterexample:
  "\<not> has (cryptoCache (boot :: nat world)) 1000 ''crypto-list''
   \<and> 301500 \<le> 1500 + stdTTL * 1000
   \<and> sent (fst (snd (get_crypto
        \<lparr>arrival = 1000, get_at = 1000, upstream = Inr [1, 2, 3 :: nat], resumed = 1500\<rparr> boot)))
      = Some (200, Some [1, 2, 3])
   \<and> sent (fst (snd (get_crypto
        \<lparr>arrival = 301500, get_at = 301501, upstream = Inr [4, 5], resumed = 302000\<rparr>
        (snd (snd (get_crypto
           \<lparr>arrival = 1000, get_at = 1000, upstream = Inr [1, 2, 3 :: nat], resumed = 1500\<rparr>
           boot))))))
      = Some (200, None)
   \<and> sent (fst (snd (get_crypto
        \<lparr>arrival = 301500, get_at = 301501, upstream = Inr [4, 5], resumed = 302000\<rparr>
        (snd (snd (get_crypto
           \<lparr>arrival = 1000, get_at = 1000, upstream = Inr [1, 2, 3 :: nat], resumed = 1500\<rparr>
           boot))))))
      \<noteq> sent (fst (snd (get_crypto
        \<lparr>arrival = 1000, get_at = 1000, upstream = Inr [1, 2, 3 :: nat], resumed = 1500\<rparr> boot)))"
  by (simp add: handler_defs boot_def has_def get_def set_cache_def slice_def stdTTL_def Let_def)

text \<open>
  Claim C2, amended. When a request missed the cache and fetched successfully, a next
  request that arrives no later than the TTL after that fetch was stored issues no
  upstream request. It is sent the very same body under the same status if its \<open>get\<close>
  also reads the clock within that window; if the entry has expired by then, it is sent
  \<^verbatim>\<open>undefined\<close>.
\<close>

theorem second_within_ttl:
  assumes "\<not> has (cryptoCache w) (arrival r1) ''crypto-list''"
      and "upstream r1 = Inr xs"
      and "get_crypto r1 w = (out1, res1, w1)"
      and "arrival r2 \<le> resumed r1 + stdTTL * 1000"
      and "get_crypto r2 w1 = (out2, res2, w2)"
  shows "sent res1 = Some (200, Some (take 25 xs))
       \<and> upstream_fetches w2 = upstream_fetches w1
       \<and> next_calls w2 = next_calls w1
       \<and> (get_at r2 \<le> resumed r1 + stdTTL * 1000 \<longrightarrow> sent res2 = sent res1)
       \<and> (resumed r1 + stdTTL * 1000 < get_at r2 \<longrightarrow> sent res2 = Some (200, None))"
proof -
  from assms(1,2,3) have first:
    "res1 = \<lparr>statusCode = 200, sent = Some (200, Some (take 25 xs))\<rparr>"
    "cryptoCache w1 = set_cache (cryptoCache w) (resumed r1) ''crypto-list'' (take 25 xs)"
    by (auto simp: get_crypto_miss cryptoController_success fresh_res_def)
  from first(2) assms(4) have hit: "has (cryptoCache w1) (arrival r2) ''crypto-list''"
    by (simp add: has_set_cache)
  from first(2) have cached: "get (cryptoCache w1) (get_at r2) ''crypto-list''
      = (if get_at r2 \<le> resumed r1 + stdTTL * 1000 then Some (take 25 xs) else None)"
    by (simp add: get_def has_set_cache) (simp add: set_cache_def)
  from get_crypto_hit [OF hit] assms(5) have second:
    "sent res2 = Some (200, get (cryptoCache w1) (get_at r2) ''crypto-list'')"
    "trace w2 = Get ''crypto-list'' (get (cryptoCache w1) (get_at r2) ''crypto-list'')
                  # Has ''crypto-list'' True # trace w1"
    by auto
  from first(1) second cached show ?thesis
    by (simp add: upstream_fetches_def next_calls_def)
qed

theorem second_within_ttl_witness:
  "sent (fst (snd (get_crypto
      \<lparr>arrival = 301500, get_at = 301500, upstream = Inl NetworkError, resumed = 301600\<rparr>
      (snd (snd (get_crypto
         \<lparr>arrival = 1000, get_at = 1000, upstream = Inr [0..<30], resumed = 1500\<rparr> boot))))))
     = Some (200, Some [0..<25])
   \<and> upstream_fetches (snd (snd (get_crypto
        \<lparr>arrival = 301500, get_at = 301500, upstream = Inl NetworkError, resumed = 301600\<rparr>
        (snd (snd (get_crypto
           \<lparr>arrival = 1000, get_at = 1000, upstream = Inr [0..<30], resumed = 1500\<rparr> boot))))))
     = 1"
proof -
  let ?r1 = "\<lparr>arrival = 1000, get_at = 1000, upstream = Inr [0..<30], resumed = 1500\<rparr> :: nat request"
  let ?r2 = "\<lparr>arrival = 301500, get_at = 301500, upstream = Inl NetworkError, resumed = 301600\<rparr>
               :: nat request"
  let ?w1 = "snd (snd (get_crypto ?r1 boot))"
  have miss: "\<not> has (cryptoCache boot) (arrival ?r1) ''crypto-list''"
    by (simp add: boot_def has_def)
  have ok: "upstream ?r1 = Inr [0..<30]"
    by simp
  have run1: "get_crypto ?r1 boot = (fst (get_crypto ?r1 boot), fst (snd (get_crypto ?r1 boot)), ?w1)"
    by simp
  have window: "arrival ?r2 \<le> resumed ?r1 + stdTTL * 1000"
    by (simp add: stdTTL_def)
  have run2: "get_crypto ?r2 ?w1 = (fst (get_crypto ?r2 ?w1), fst (snd (get_crypto ?r2 ?w1)),
      snd (snd (get_crypto ?r2 ?w1)))"
    by simp
  have fetched: "upstream_fetches ?w1 = 1"
    by (simp add: handler_defs boot_def has_def upstream_fetches_def)
  have in_time: "get_at ?r2 \<le> resumed ?r1 + stdTTL * 1000"
    by (simp add: stdTTL_def)
  note second = second_within_ttl [OF miss ok run1 window run2]
  from second in_time
  have "sent (fst (snd (get_crypto ?r2 ?w1))) = sent (fst (snd (get_crypto ?r1 boot)))"
    by blast
  with second fetched show ?thesis
    by simp
qed


text \<open>
  Claim C6. A request that arrives after the cached entry's expiry issues exactly one
  upstream request; if the fetch succeeds, the entry under \<^verbatim>\<open>"crypto-list"\<close> is replaced
  by the first 25 records fetched, with an expiry stamped when the controller resumed,
  which is later than the old one.
\<close>

theorem refetch_after_expiry:
  assumes "cryptoCache w ''crypto-list'' = Some e"
      and "entry_t e < arrival rq"
      and "get_crypto rq w = (out, res', w')"
  shows "upstream_fetches w' = upstream_fetches w + 1
       \<and> (\<forall>xs. upstream rq = Inr xs \<longrightarrow>
            cryptoCache w' ''crypto-list''
              = Some \<lparr>entry_v = take 25 xs, entry_t = resumed rq + stdTTL * 1000\<rparr>
            \<and> (arrival rq \<le> resumed rq \<longrightarrow> entry_t e < resumed rq + stdTTL * 1000))"
proof -
  from assms(1,2) have miss: "\<not> has (cryptoCache w) (arrival rq) ''crypto-list''"
    by (simp add: has_def)
  show ?thesis
  proof (cases "upstream rq")
    case (Inl err)
    with assms(3) show ?thesis
      by (auto simp: get_crypto_miss [OF miss] cryptoController_failure upstream_fetches_def)
  next
    case (Inr xs)
    with assms(2,3) show ?thesis
      by (auto simp: get_crypto_miss [OF miss] cryptoController_success upstream_fetches_def
          set_cache_def)
  qed
qed

theorem refetch_after_expiry_witness:
  "upstream_fetches (snd (snd (get_crypto
       \<lparr>arrival = 5001, get_at = 5001, upstream = Inr [0..<30], resumed = 5600\<rparr>
       \<lparr>cryptoCache = [''crypto-list'' \<mapsto> \<lparr>entry_v = [7, 8], entry_t = 5000\<rparr>], trace = []\<rparr>)))
     = 1
   \<and> cryptoCache (snd (snd (get_crypto
       \<lparr>arrival = 5001, get_at = 5001, upstream = Inr [0..<30], resumed = 5600\<rparr>
       \<lparr>cryptoCache = [''crypto-list'' \<mapsto> \<lparr>entry_v = [7, 8], entry_t = 5000\<rparr>], trace = []\<rparr>)))
       ''crypto-list''
     = Some \<lparr>entry_v = [0..<25], entry_t = 305600\<rparr>"
proof -
  let ?e = "\<lparr>entry_v = [7, 8], entry_t = 5000\<rparr> :: nat entry"
  let ?w = "\<lparr>cryptoCache = [''crypto-list'' \<mapsto> ?e], trace = []\<rparr>"
  let ?rq = "\<lparr>arrival = 5001, get_at = 5001, upstream = Inr [0..<30], resumed = 5600\<rparr> :: nat request"
  have stale: "cryptoCache ?w ''crypto-list'' = Some ?e"
    by simp
  have expired: "entry_t ?e < arrival ?rq"
    by simp
  have run: "get_crypto ?rq ?w
      = (fst (get_crypto ?rq ?w), fst (snd (get_crypto ?rq ?w)), snd (snd (get_crypto ?rq ?w)))"
    by simp
  note refetch = refetch_after_expiry [OF stale expired run]
  from refetch have "upstream ?rq = Inr [0..<30] \<longrightarrow>
      cryptoCache (snd (snd (get_crypto ?rq ?w))) ''crypto-list''
        = Some \<lparr>entry_v = take 25 [0..<30], entry_t = resumed ?rq + stdTTL * 1000\<rparr>"
    by blast
  with refetch show ?thesis
    by (simp add: stdTTL_def upstream_fetches_def)
qed

subsection \<open>Every run of the server\<close>

lemma get_crypto_gets_after_has:
  assumes "gets_after_has (trace w)"
  shows "gets_after_has (trace (snd (snd (get_crypto rq w))))"
proof (cases "has (cryptoCache w) (arrival rq) ''crypto-list''")
  case True
  with assms show ?thesis by (simp add: get_crypto_hit)
next
  case False
  with assms show ?thesis
    by (cases "upstream rq")
       (simp_all add: get_crypto_miss cryptoController_failure cryptoController_success)
qed

lemma serve_gets_after_has:
  "gets_after_has (trace w) \<Longrightarrow> gets_after_has (trace (serve rqs w))"
  by (induction rqs arbitrary: w) (simp_all add: get_crypto_gets_after_has)

lemma get_crypto_guarded:
  assumes "guarded_gets (trace w)"
      and "has (cryptoCache w) (arrival rq) ''crypto-list''
           \<Longrightarrow> has (cryptoCache w) (get_at rq) ''crypto-list''"
  shows "guarded_gets (trace (snd (snd (get_crypto rq w))))"
proof (cases "has (cryptoCache w) (arrival rq) ''crypto-list''")
  case True
  from has_get [OF assms(2) [OF True]] assms(1) True show ?thesis
    by (auto simp: get_crypto_hit)
next
  case False
  with assms(1) show ?thesis
    by (cases "upstream rq")
       (simp_all add: get_crypto_miss cryptoController_failure cryptoController_success)
qed

lemma serve_guarded:
  "guarded_gets (trace w) \<Longrightarrow> unexpired_at_get rqs w \<Longrightarrow> guarded_gets (trace (serve rqs w))"
proof (induction rqs arbitrary: w)
  case Nil
  then show ?case by simp
next
  case (Cons rq rqs)
  from Cons.prems have "guarded_gets (trace (snd (snd (get_crypto rq w))))"
    by (intro get_crypto_guarded) (simp_all split: if_splits)
  with Cons.prems Cons.IH show ?case
    by simp
qed

text \<open>
  Claim C8, as stated: no \<^verbatim>\<open>get\<close> ever returns \<^verbatim>\<open>undefined\<close>, since each comes after a
  \<^verbatim>\<open>has\<close> that returned true. It fails when the entry expires between the two calls: the
  first request stores an entry that expires at 301500; the second request's \<open>has\<close> reads
  301500 and returns true, its \<open>get\<close> reads 301501 and returns \<^verbatim>\<open>undefined\<close>.
\<close>

theorem get_only_after_has_counterexample:
  "trace (serve
      [\<lparr>arrival = 1000, get_at = 1000, upstream = Inr [1, 2, 3 :: nat], resumed = 1500\<rparr>,
       \<lparr>arrival = 301500, get_at = 301501, upstream = Inr [4, 5], resumed = 302000\<rparr>] boot)
     = [Get ''crypto-list'' None, Has ''crypto-list'' True,
        Set ''crypto-list'' [1, 2, 3], AxiosGet ticker_url, Next, Has ''crypto-list'' False]
   \<and> \<not> guarded_gets (trace (serve
      [\<lparr>arrival = 1000, get_at = 1000, upstream = Inr [1, 2, 3 :: nat], resumed = 1500\<rparr>,
       \<lparr>arrival = 301500, get_at = 301501, upstream = Inr [4, 5], resumed = 302000\<rparr>] boot))"
  by (simp add: handler_defs boot_def has_def get_def set_cache_def slice_def stdTTL_def Let_def)

text \<open>
  Claim C8, amended. Whatever requests the server has handled since it started, every
  call of \<open>get\<close> it made came directly after a call of \<open>has\<close> for the same key that
  returned true. In a run where no entry expires between such a \<open>has\<close> and its \<open>get\<close>,
  every \<open>get\<close> returned a value: \<open>get\<close> never returned \<^verbatim>\<open>undefined\<close>.
\<close>

theorem get_only_after_has:
  "gets_after_has (trace (serve rqs boot))
   \<and> (unexpired_at_get rqs boot \<longrightarrow> guarded_gets (trace (serve rqs boot)))"
  by (simp add: serve_gets_after_has serve_guarded boot_def)

theorem get_only_after_has_witness:
  "unexpired_at_get
      [\<lparr>arrival = 1000, get_at = 1000, upstream = Inr [1, 2, 3 :: nat], resumed = 1500\<rparr>,
       \<lparr>arrival = 2000, get_at = 2001, upstream = Inr [4, 5], resumed = 2500\<rparr>] boot
   \<and> guarded_gets (trace (serve
      [\<lparr>arrival = 1000, get_at = 1000, upstream = Inr [1, 2, 3 :: nat], resumed = 1500\<rparr>,
       \<lparr>arrival = 2000, get_at = 2001, upstream = Inr [4, 5], resumed = 2500\<rparr>] boot))
   \<and> trace (serve
      [\<lparr>arrival = 1000, get_at = 1000, upstream = Inr [1, 2, 3 :: nat], resumed = 1500\<rparr>,
       \<lparr>arrival = 2000, get_at = 2001, upstream = Inr [4, 5], resumed = 2500\<rparr>] boot)
     = [Get ''crypto-list'' (Some [1, 2, 3]), Has ''crypto-list'' True,
        Set ''crypto-list'' [1, 2, 3], AxiosGet ticker_url, Next, Has ''crypto-list'' False]"
proof -
  let ?rqs = "[\<lparr>arrival = 1000, get_at = 1000, upstream = Inr [1, 2, 3 :: nat], resumed = 1500\<rparr>,
       \<lparr>arrival = 2000, get_at = 2001, upstream = Inr [4, 5], resumed = 2500\<rparr>]"
  have timely: "unexpired_at_get ?rqs boot"
    by (simp add: handler_defs boot_def has_def set_cache_def slice_def stdTTL_def)
  have run: "trace (serve ?rqs boot)
     = [Get ''crypto-list'' (Some [1, 2, 3]), Has ''crypto-list'' True,
        Set ''crypto-list'' [1, 2, 3], AxiosGet ticker_url, Next, Has ''crypto-list'' False]"
    by (simp add: handler_defs boot_def has_def get_def set_cache_def slice_def stdTTL_def Let_def)
  from get_only_after_has [of ?rqs] timely have "guarded_gets (trace (serve ?rqs boot))"
    by blast
  with timely run show ?thesis
    by blast
qed


subsection \<open>Middleware and controller\<close>




end
